theory Spec2Isabelle
  imports Main
begin

section \<open>Reply chunking (askpoe, lines 177-207 of main.py)\<close>

text \<open>
  A Python \<open>str\<close> is a sequence of code points; it is modelled as a \<open>string\<close> whose
  elements stand for the code points, so that \<open>length\<close> is Python's \<open>len\<close>,
  \<open>take n s\<close> is \<open>s[:n]\<close> and \<open>take n (drop i s)\<close> is \<open>s[i:i+n]\<close> (for \<open>0 \<le> i\<close>, \<open>0 \<le> n\<close>).
\<close>

text \<open>
  The two replies of askpoe that are not the transcript: the message
  "The combined prompt and reply are too long to display." (line 194) and the message
  "Sorry, I could not generate a response." (line 207).
\<close>

datatype reply_error = PrefixTooLong | NoResponse

text \<open>
  Line 189:
  \<^verbatim>\<open>prefix = f"**{interaction.user.display_name}:** {prompt}\n**{model_info['model']}:** "\<close>
\<close>

definition format_prefix :: "string \<Rightarrow> string \<Rightarrow> string \<Rightarrow> string" where
  "format_prefix display_name prompt model =
     ''**'' @ display_name @ '':** '' @ prompt @ [CHR 0x0A] @ ''**'' @ model @ '':** ''"

text \<open>
  Lines 201-203, the messages sent after the first one:
  \<^verbatim>\<open>
  for i in range(max_chunk_size, len(response), 2000):
      chunk = response[i:i+2000]
      await interaction.followup.send(f"{chunk}")
  \<close>
  \<open>i\<close> is the loop variable and \<open>step\<close> the step of the range (2000 in the source).
  The loop is only reached with a positive step (\<open>range\<close> raises on step 0, which the
  caller's guard \<open>max_chunk_size > 0\<close> excludes).
\<close>

function rest_chunks :: "string \<Rightarrow> nat \<Rightarrow> nat \<Rightarrow> string list" where
  "rest_chunks response i step =
     (if 0 < step \<and> i < length response
      then take step (drop i response) # rest_chunks response (i + step) step
      else [])"
  by pat_completeness auto
termination
  by (relation "measure (\<lambda>(response, i, step). length response - i)") auto

declare rest_chunks.simps [simp del]

text \<open>
  Lines 183-203, with the literal 2000 as the parameter \<open>limit\<close>: the list of messages
  sent, in order, or the "too long to display" reply.
  \<^verbatim>\<open>
  formatted_message = f"**{...}:** {prompt}\n**{...}:** {response}"
  if len(formatted_message) <= 2000:
      await interaction.followup.send(formatted_message)
  else:
      prefix = ...
      max_chunk_size = 2000 - len(prefix)
      if max_chunk_size <= 0:
          await interaction.followup.send('... too long to display.')
      else:
          first_chunk = response[:max_chunk_size]
          await interaction.followup.send(f"{prefix}{first_chunk}")
          for i in range(max_chunk_size, len(response), 2000): ...
  \<close>
  \<open>max_chunk_size\<close> is a Python integer and may be negative, so it is an \<open>int\<close>.
\<close>

definition chunk :: "string \<Rightarrow> string \<Rightarrow> nat \<Rightarrow> reply_error + string list" where
  "chunk prefix response limit =
     (let formatted_message = prefix @ response in
      if length formatted_message \<le> limit then Inr [formatted_message]
      else
        let max_chunk_size = int limit - int (length prefix) in
        if max_chunk_size \<le> 0 then Inl PrefixTooLong
        else
          let first_chunk = take (nat max_chunk_size) response in
          Inr ((prefix @ first_chunk) # rest_chunks response (nat max_chunk_size) limit))"

text \<open>
  Lines 177-207: the chunking is only reached with a non-empty reply
  (\<^verbatim>\<open>if response: ... else: send('Sorry, I could not generate a response.')\<close>),
  and the limit is 2000.
\<close>

definition askpoe_reply :: "string \<Rightarrow> string \<Rightarrow> string \<Rightarrow> string \<Rightarrow> reply_error + string list" where
  "askpoe_reply display_name prompt model response =
     (if response \<noteq> [] then chunk (format_prefix display_name prompt model) response 2000
      else Inl NoResponse)"

text \<open>Python's \<open>s.startswith(p)\<close>.\<close>

definition startswith :: "string \<Rightarrow> string \<Rightarrow> bool" where
  "startswith s p = (take (length p) s = p)"


section \<open>The guild configuration store\<close>

subsection \<open>Values and dictionaries\<close>

text \<open>
  What \<^verbatim>\<open>json.load\<close> returns and \<^verbatim>\<open>json.dump\<close> writes: \<open>None\<close>, booleans, numbers, strings,
  lists and dictionaries with string keys. The handlers inspect strings, \<open>None\<close> and
  dictionaries only; numbers are carried along and never computed with, and are
  represented by integers.
\<close>

datatype json =
    JNull
  | JBool bool
  | JNum int
  | JStr string
  | JArr "json list"
  | JObj "(string \<times> json) list"

text \<open>
  A Python \<open>dict\<close> keeps its items in insertion order and has each key once. It is an
  association list; \<open>d.get(k)\<close> is \<open>map_of d k\<close>, \<open>k in d\<close> is \<open>k \<in> set (keys d)\<close>,
  and \<open>list(d.items())\<close> is the list itself.
\<close>

type_synonym 'v dict = "(string \<times> 'v) list"

definition keys :: "'v dict \<Rightarrow> string list" where
  "keys d = map fst d"

text \<open>
  \<open>d[k] = v\<close>: an existing key keeps its position and gets the new value, a new key is
  appended.
\<close>

fun dict_set :: "'v dict \<Rightarrow> string \<Rightarrow> 'v \<Rightarrow> 'v dict" where
  "dict_set [] k v = [(k, v)]"
| "dict_set ((k', v') # d) k v =
     (if k' = k then (k, v) # d else (k', v') # dict_set d k v)"

text \<open>
  The exceptions the modelled statements can raise. The last four are those of reading
  the file: \<^verbatim>\<open>open\<close> raises OSError on a file it cannot open, and \<^verbatim>\<open>json.load\<close> raises
  JSONDecodeError on text that is not JSON, UnicodeDecodeError on bytes that are not text
  in the expected encoding and RecursionError on nesting that is too deep.
\<close>

datatype py_error =
    KeyError
  | TypeError
  | AttributeError
  | JSONDecodeError
  | UnicodeDecodeError
  | RecursionError
  | OSError

text \<open>
  The dictionary literal \<^verbatim>\<open>{'model': m, 'chatId': None}\<close> of lines 59-62, 73-76, 150-153,
  282-285, 312-315 and 351-354.
\<close>

definition new_record :: "string \<Rightarrow> json" where
  "new_record m = JObj [(''model'', JStr m), (''chatId'', JNull)]"


subsection \<open>Loading, saving, migration and start-up (lines 35-76)\<close>

datatype log_entry = LogError string | LogInfo string

text \<open>
  Lines 39-47. The durable file is \<open>None\<close> when \<^verbatim>\<open>os.path.exists\<close> is false, else its
  bytes. \<^verbatim>\<open>open\<close> and \<^verbatim>\<open>json.load\<close> are library functions, the parameter \<open>json_load\<close>: what
  opening the file and \<^verbatim>\<open>json.load(f)\<close> do with those bytes, the value returned or the
  exception raised. Only \<^verbatim>\<open>json.JSONDecodeError\<close> is caught (\<^verbatim>\<open>open\<close> is outside the
  \<^verbatim>\<open>try\<close> and does not raise it); every other exception leaves the block. The result is
  the value bound to \<^verbatim>\<open>llm_choices\<close> and what was logged, or the exception that escapes.
  \<^verbatim>\<open>
  if os.path.exists(LLM_CHOICES_FILE):
      with open(LLM_CHOICES_FILE, 'r') as f:
          try:
              llm_choices = json.load(f)
          except json.JSONDecodeError:
              logging.error(f"Failed to decode {LLM_CHOICES_FILE}. Resetting to default.")
              llm_choices = {}
  else:
      llm_choices = {}
  \<close>
\<close>

definition load_llm_choices ::
  "(string \<Rightarrow> py_error + json) \<Rightarrow> string option \<Rightarrow> py_error + (json \<times> log_entry list)" where
  "load_llm_choices json_load file0 =
     (case file0 of
        Some contents \<Rightarrow>
          (case json_load contents of
             Inr v \<Rightarrow> Inr (v, [])
           | Inl JSONDecodeError \<Rightarrow>
               Inr (JObj [], [LogError ''Failed to decode llm_choices.json. Resetting to default.''])
           | Inl e \<Rightarrow> Inl e)
      | None \<Rightarrow> Inr (JObj [], []))"

text \<open>
  Lines 50-52: the file is opened for writing (truncated) and the whole dictionary is
  written; \<open>json_dump\<close> is \<^verbatim>\<open>json.dump(_, indent=4)\<close>. The result is the new file.
\<close>

definition save_llm_choices :: "(json \<Rightarrow> string) \<Rightarrow> json dict \<Rightarrow> string option" where
  "save_llm_choices json_dump llm_choices = Some (json_dump (JObj llm_choices))"

text \<open>
  Lines 55-65. The loop runs over the snapshot \<^verbatim>\<open>list(llm_choices.items())\<close> and assigns
  into the dictionary; its state is the dictionary and the flag \<open>migrated\<close>.
  \<^verbatim>\<open>
  def migrate_llm_choices():
      migrated = False
      for guild_id, data in list(llm_choices.items()):
          if isinstance(data, str):
              llm_choices[guild_id] = {'model': data, 'chatId': None}
              migrated = True
      return migrated
  \<close>
\<close>

fun migrate_loop :: "json dict \<Rightarrow> json dict \<times> bool \<Rightarrow> json dict \<times> bool" where
  "migrate_loop [] (llm_choices, migrated) = (llm_choices, migrated)"
| "migrate_loop ((guild_id, data) # items) (llm_choices, migrated) =
     (case data of
        JStr s \<Rightarrow> migrate_loop items (dict_set llm_choices guild_id (new_record s), True)
      | _ \<Rightarrow> migrate_loop items (llm_choices, migrated))"

definition migrate_llm_choices :: "json dict \<Rightarrow> json dict \<times> bool" where
  "migrate_llm_choices llm_choices = migrate_loop llm_choices (llm_choices, False)"

subsection \<open>The store updates of the handlers\<close>

text \<open>
  Lines 277-289 of llm_set, after the model has been validated:
  \<^verbatim>\<open>
  current_info = llm_choices.get(guild_id)
  if isinstance(current_info, str):
      llm_choices[guild_id] = {'model': model, 'chatId': None}
  else:
      llm_choices[guild_id]['model'] = model
      llm_choices[guild_id]['chatId'] = None
  \<close>
  In the else branch \<^verbatim>\<open>llm_choices[guild_id]\<close> raises KeyError when the key is absent, and
  the item assignment raises TypeError on a value that is not a dictionary.
\<close>

definition llm_set_entry :: "json dict \<Rightarrow> string \<Rightarrow> string \<Rightarrow> py_error + json dict" where
  "llm_set_entry llm_choices guild_id model =
     (case map_of llm_choices guild_id of
        Some (JStr current_info) \<Rightarrow> Inr (dict_set llm_choices guild_id (new_record model))
      | Some (JObj entry) \<Rightarrow>
          Inr (dict_set llm_choices guild_id
                 (JObj (dict_set (dict_set entry ''model'' (JStr model)) ''chatId'' JNull)))
      | Some _ \<Rightarrow> Inl TypeError
      | None \<Rightarrow> Inl KeyError)"


subsection \<open>The process state: start-up and the llm-set handler\<close>

text \<open>The process state the store operations act on: the dictionary and the file.\<close>

record state =
  llm_choices :: "json dict"
  durable_file :: "string option"

text \<open>
  Lines 39-76, module initialisation. \<open>guild_key\<close> is \<^verbatim>\<open>str(GUILD_ID)\<close>. An exception
  that escapes the loading ends the initialisation. A loaded value that is not a
  dictionary has no \<^verbatim>\<open>items\<close>: the call of line 57 raises AttributeError.
  \<^verbatim>\<open>
  if migrate_llm_choices():
      save_llm_choices()
  if str(GUILD_ID) not in llm_choices:
      llm_choices[str(GUILD_ID)] = {'model': 'gpt3_5', 'chatId': None}
  \<close>
\<close>

definition startup ::
  "(string \<Rightarrow> py_error + json) \<Rightarrow> (json \<Rightarrow> string) \<Rightarrow> string \<Rightarrow> string option \<Rightarrow>
     py_error + (state \<times> log_entry list)" where
  "startup json_load json_dump guild_key file0 =
     (case load_llm_choices json_load file0 of
        Inl e \<Rightarrow> Inl e
      | Inr (JObj d, log) \<Rightarrow>
          (let (d1, migrated) = migrate_llm_choices d;
               file1 = (if migrated then save_llm_choices json_dump d1 else file0);
               d2 = (if guild_key \<notin> set (keys d1)
                     then dict_set d1 guild_key (new_record ''gpt3_5'') else d1)
           in Inr (\<lparr>llm_choices = d2, durable_file = file1\<rparr>, log))
      | Inr (_, log) \<Rightarrow> Inl AttributeError)"

text \<open>The durable copy equals the serialisation of the dictionary in memory.\<close>

definition persisted :: "(json \<Rightarrow> string) \<Rightarrow> state \<Rightarrow> bool" where
  "persisted json_dump st = (durable_file st = Some (json_dump (JObj (llm_choices st))))"

text \<open>The three replies of llm_set (lines 272, 292 and 296).\<close>

datatype llm_set_reply = NotAValidModel | ModelSet | ErrorSettingModel

text \<open>
  Lines 268-296, the handler: the model is validated against the provider's list, the
  entry is updated and the dictionary saved (line 291); any exception is caught
  (line 294) and reported, leaving the state as the failing statement found it.
\<close>

definition llm_set ::
  "(json \<Rightarrow> string) \<Rightarrow> string list \<Rightarrow> state \<Rightarrow> string \<Rightarrow> string \<Rightarrow> state \<times> llm_set_reply" where
  "llm_set json_dump models st guild_id model =
     (if model \<notin> set models then (st, NotAValidModel)
      else
        (case llm_set_entry (llm_choices st) guild_id model of
           Inr d \<Rightarrow> (\<lparr>llm_choices = d, durable_file = save_llm_choices json_dump d\<rparr>, ModelSet)
         | Inl e \<Rightarrow> (st, ErrorSettingModel)))"

subsection \<open>What migration does to a dictionary, entry by entry\<close>

text \<open>
  The effect of migration as section 3 of the specification words it: a value that is a
  bare string \<open>S\<close> becomes the record with model \<open>S\<close> and no chat; any other value stays.
  The loop \<open>migrate_llm_choices\<close> is compared with it below.
\<close>

definition migrated_value :: "json \<Rightarrow> json" where
  "migrated_value data = (case data of JStr s \<Rightarrow> new_record s | _ \<Rightarrow> data)"

definition migrated_store :: "json dict \<Rightarrow> json dict" where
  "migrated_store d = map (\<lambda>(g, data). (g, migrated_value data)) d"

section \<open>Properties of the chunking\<close>

lemma rest_chunks_concat:
  "0 < step \<Longrightarrow> concat (rest_chunks r i step) = drop i r"
proof (induction r i step rule: rest_chunks.induct)
  case (1 response i step)
  show ?case
  proof (cases "i < length response")
    case True
    have "concat (rest_chunks response i step) =
          take step (drop i response) @ concat (rest_chunks response (i + step) step)"
      using True "1.prems" by (subst rest_chunks.simps) simp
    also have "\<dots> = take step (drop i response) @ drop (i + step) response"
      using "1.IH" True "1.prems" by simp
    also have "\<dots> = drop i response"
    proof -
      have "drop (i + step) response = drop step (drop i response)"
        by (simp add: add.commute)
      then show ?thesis by (simp only: append_take_drop_id)
    qed
    finally show ?thesis .
  next
    case False
    then show ?thesis by (subst rest_chunks.simps) simp
  qed
qed

lemma rest_chunks_length_le:
  "seg \<in> set (rest_chunks r i step) \<Longrightarrow> length seg \<le> step"
proof (induction r i step rule: rest_chunks.induct)
  case (1 response i step)
  from "1.prems" have c: "0 < step \<and> i < length response"
    by (subst (asm) rest_chunks.simps) (auto split: if_splits)
  from "1.prems" c have "seg = take step (drop i response) \<or> seg \<in> set (rest_chunks response (i + step) step)"
    by (subst (asm) rest_chunks.simps) auto
  then show ?case using "1.IH" c by auto
qed

lemma ceil_div_step:
  fixes n l :: nat
  assumes "0 < n" "0 < l"
  shows "(n + l - 1) div l = Suc ((n - l + l - 1) div l)"
proof (cases "l \<le> n")
  case True
  then have "n + l - 1 = (n - l + l - 1) + l" using assms by simp
  then have "(n + l - 1) div l = (n - l + l - 1) div l + 1"
    using assms by (simp only: div_add_self2)
  then show ?thesis by simp
next
  case False
  then have a: "n - l + l - 1 = l - 1" by simp
  have "(n + l - 1) div l = 1"
  proof -
    have "n + l - 1 = (n - 1) + l" using assms by simp
    then have "(n + l - 1) div l = (n - 1) div l + 1"
      using assms by (simp only: div_add_self2)
    moreover have "(n - 1) div l = 0" using False assms by simp
    ultimately show ?thesis by simp
  qed
  then show ?thesis using a assms by simp
qed

lemma rest_chunks_map:
  "0 < step \<Longrightarrow>
   rest_chunks r i step =
     map (\<lambda>k. take step (drop (i + k * step) r)) [0..<(length r - i + step - 1) div step]"
proof (induction r i step rule: rest_chunks.induct)
  case (1 response i step)
  let ?n = "length response - i"
  show ?case
  proof (cases "i < length response")
    case True
    then have n: "0 < ?n" by simp
    have cnt: "(?n + step - 1) div step = Suc ((length response - (i + step) + step - 1) div step)"
      using ceil_div_step[OF n "1.prems"] by (simp add: diff_diff_left)
    have "rest_chunks response i step =
          take step (drop i response) # rest_chunks response (i + step) step"
      using True "1.prems" by (subst rest_chunks.simps) simp
    also have "\<dots> = take step (drop i response) #
          map (\<lambda>k. take step (drop (i + step + k * step) response))
            [0..<(length response - (i + step) + step - 1) div step]"
      using "1.IH" True "1.prems" by simp
    also have "\<dots> = map (\<lambda>k. take step (drop (i + k * step) response))
            [0..<Suc ((length response - (i + step) + step - 1) div step)]"
      by (simp only: map_upt_Suc) (simp add: add.assoc)
    finally show ?thesis by (simp only: cnt)
  next
    case False
    then have "(?n + step - 1) div step = 0" using "1.prems" by simp
    moreover have "rest_chunks response i step = []" using False by (subst rest_chunks.simps) simp
    ultimately show ?thesis by simp
  qed
qed


lemma ceil_div_less:
  fixes k l L :: nat
  assumes "0 < l" "k < (L + l - 1) div l"
  shows "k * l < L"
proof -
  from assms(2) have "Suc k \<le> (L + l - 1) div l" by simp
  then have "Suc k * l \<le> L + l - 1"
    using assms(1) by (simp only: less_eq_div_iff_mult_less_eq)
  then show ?thesis using assms(1) by simp
qed

lemma ceil_div_ge:
  fixes l L :: nat
  assumes "0 < l"
  shows "L \<le> ((L + l - 1) div l) * l"
proof -
  have "L + l - 1 < ((L + l - 1) div l) * l + l"
    using assms by (metis add.commute dividend_less_div_times mult.commute)
  then show ?thesis using assms by simp
qed

lemma chunk_split:
  assumes "limit < length prefix + length body" "length prefix < limit"
  shows "chunk prefix body limit =
     Inr ((prefix @ take (limit - length prefix) body) #
          rest_chunks body (limit - length prefix) limit)"
proof -
  have "nat (int limit - int (length prefix)) = limit - length prefix" by simp
  then show ?thesis using assms by (simp add: chunk_def Let_def)
qed

text \<open>
  Claim C4. When \<open>length prefix + length body > limit\<close> and
  \<open>available = limit - length prefix > 0\<close>, the messages are
  \<open>prefix @ body[0:available]\<close> followed by the slices \<open>body[available + k * limit :
  available + (k + 1) * limit]\<close> for \<open>k = 0, 1, \<dots>\<close>, as many as are non-empty; every
  message but the last has exactly \<open>limit\<close> characters, and the last one is the non-empty
  remainder of the body. For \<open>limit = 20\<close>, prefix \<open>A:\<close> and a body of 30 \<open>x\<close> the result is
  \<open>A:\<close> with 18 \<open>x\<close>, then 12 \<open>x\<close>.
\<close>

theorem chunk_multi_segment:
  "(limit < length prefix + length body \<and> length prefix < limit \<longrightarrow>
     (let available = limit - length prefix;
          n = (length body - available + limit - 1) div limit;
          segs = (prefix @ take available body) #
                 map (\<lambda>k. take limit (drop (available + k * limit) body)) [0..<n]
      in chunk prefix body limit = Inr segs \<and>
         (\<forall>i. Suc i < length segs \<longrightarrow> length (segs ! i) = limit) \<and>
         last segs = drop (available + (n - 1) * limit) body \<and>
         0 < length (last segs) \<and> length (last segs) \<le> limit))
   \<and> chunk ''A:'' (replicate 30 CHR ''x'') 20 =
        Inr [''A:'' @ replicate 18 CHR ''x'', replicate 12 CHR ''x'']"
proof (rule conjI, rule impI)
  assume h: "limit < length prefix + length body \<and> length prefix < limit"
  define a where "a = limit - length prefix"
  define L where "L = length body - a"
  define n where "n = (L + limit - 1) div limit"
  define f where "f = (\<lambda>k. take limit (drop (a + k * limit) body))"
  define segs where "segs = (prefix @ take a body) # map f [0..<n]"
  have lim: "0 < limit" and a: "0 < a" "a < length body" "length prefix + a = limit"
    using h by (auto simp: a_def)
  have Lpos: "0 < L" using a by (simp add: L_def)
  have npos: "0 < n"
  proof -
    have "limit \<le> L + limit - 1" using Lpos by simp
    then have "1 \<le> (L + limit - 1) div limit"
      using lim by (simp add: less_eq_div_iff_mult_less_eq)
    then show ?thesis by (simp add: n_def)
  qed
  have klt: "k * limit < L" if "k < n" for k
    using ceil_div_less[OF lim] that by (simp add: n_def)
  have c: "chunk prefix body limit = Inr segs"
    using chunk_split[of limit prefix body] h rest_chunks_map[OF lim, of body a]
    by (simp add: segs_def f_def n_def L_def a_def)
  have flen: "length (f k) = limit" if "Suc k < n" for k
  proof -
    have "Suc k * limit < L" using klt[OF that] .
    then have "limit \<le> length body - (a + k * limit)" by (simp add: L_def)
    then show ?thesis by (simp add: f_def)
  qed
  have full: "\<forall>i. Suc i < length segs \<longrightarrow> length (segs ! i) = limit"
  proof (intro allI impI)
    fix i assume i: "Suc i < length segs"
    show "length (segs ! i) = limit"
    proof (cases i)
      case 0
      then show ?thesis using a by (simp add: segs_def)
    next
      case (Suc k)
      then have "Suc k < n" using i by (simp add: segs_def)
      then show ?thesis using Suc flen[of k] by (simp add: segs_def)
    qed
  qed
  have lastf: "last segs = f (n - 1)"
  proof -
    have "map f [0..<n] \<noteq> []" using npos by simp
    then have "last segs = last (map f [0..<n])" by (simp add: segs_def)
    also have "\<dots> = f (last [0..<n])" using npos by (simp add: last_map)
    also have "last [0..<n] = n - 1" using npos by (cases n) simp_all
    finally show ?thesis .
  qed
  have rem: "length body - (a + (n - 1) * limit) \<le> limit"
  proof -
    have "L \<le> n * limit" using ceil_div_ge[OF lim, of L] by (simp add: n_def)
    moreover have "n * limit = (n - 1) * limit + limit" using npos by (cases n) simp_all
    ultimately show ?thesis by (simp add: L_def)
  qed
  have lastd: "last segs = drop (a + (n - 1) * limit) body"
    using lastf rem by (simp add: f_def)
  have lastpos: "0 < length (last segs)"
  proof -
    have "(n - 1) * limit < L" using klt[of "n - 1"] npos by simp
    then show ?thesis using lastd by (simp add: L_def)
  qed
  have lastle: "length (last segs) \<le> limit" using lastd rem by simp
  show "let available = limit - length prefix;
          n = (length body - available + limit - 1) div limit;
          segs = (prefix @ take available body) #
                 map (\<lambda>k. take limit (drop (available + k * limit) body)) [0..<n]
      in chunk prefix body limit = Inr segs \<and>
         (\<forall>i. Suc i < length segs \<longrightarrow> length (segs ! i) = limit) \<and>
         last segs = drop (available + (n - 1) * limit) body \<and>
         0 < length (last segs) \<and> length (last segs) \<le> limit"
    unfolding Let_def
    using c full lastd lastpos lastle
    unfolding segs_def f_def n_def L_def a_def by blast
next
  show "chunk ''A:'' (replicate 30 CHR ''x'') 20 =
        Inr [''A:'' @ replicate 18 CHR ''x'', replicate 12 CHR ''x'']"
    by (simp add: chunk_def Let_def rest_chunks.simps)
qed


text \<open>
  The hypotheses of C4 hold for the prefix \<open>A:\<close>, the body \<open>abcdefghij\<close> and the limit 5,
  where three messages are sent.
\<close>

theorem chunk_multi_segment_witness:
  "5 < length ''A:'' + length ''abcdefghij'' \<and> length ''A:'' < 5 \<and>
   chunk ''A:'' ''abcdefghij'' 5 = Inr [''A:abc'', ''defgh'', ''ij'']"
  using chunk_multi_segment [of 5 "''A:''" "''abcdefghij''"]
  by (simp add: Let_def upt_rec)

text \<open>
  Claim C1, as amended. For a prefix shorter than the limit the chunking never fails;
  the first message is the prefix followed by a portion of the body, every later message
  is a portion of the body with nothing added, the portions concatenated in order are the
  body, and no message is longer than the limit.
\<close>

theorem chunk_round_trip:
  assumes "length p < limit"
  shows "\<exists>b0 rest. chunk p body limit = Inr ((p @ b0) # rest) \<and>
           b0 @ concat rest = body \<and>
           (\<forall>seg \<in> set ((p @ b0) # rest). length seg \<le> limit)"
proof (cases "length (p @ body) \<le> limit")
  case True
  then have "chunk p body limit = Inr ((p @ body) # [])"
    by (simp add: chunk_def)
  moreover have "body @ concat [] = body" by simp
  moreover have "\<forall>seg \<in> set ((p @ body) # []). length seg \<le> limit"
    using True by simp
  ultimately show ?thesis by blast
next
  case False
  then have big: "limit < length p + length body" by simp
  let ?a = "limit - length p"
  let ?rest = "rest_chunks body ?a limit"
  have lim: "0 < limit" using assms by simp
  have c: "chunk p body limit = Inr ((p @ take ?a body) # ?rest)"
    using chunk_split[OF big assms] .
  have rt: "take ?a body @ concat ?rest = body"
    by (simp add: rest_chunks_concat[OF lim])
  have "length (p @ take ?a body) \<le> limit" using assms by simp
  then have len: "\<forall>seg \<in> set ((p @ take ?a body) # ?rest). length seg \<le> limit"
    using rest_chunks_length_le by auto
  from c rt len show ?thesis by blast
qed

text \<open>
  The hypothesis of C1 holds for the prefix \<open>A:\<close> and the limit 5; the body portions
  \<open>abc\<close>, \<open>defgh\<close>, \<open>ij\<close> give the body back.
\<close>

theorem chunk_round_trip_witness:
  "length ''A:'' < 5 \<and>
   chunk ''A:'' ''abcdefghij'' 5 = Inr [''A:abc'', ''defgh'', ''ij''] \<and>
   ''abc'' @ concat [''defgh'', ''ij''] = ''abcdefghij'' \<and>
   length ''A:abc'' \<le> 5 \<and> length ''defgh'' \<le> 5 \<and> length ''ij'' \<le> 5"
proof -
  have h: "length ''A:'' < (5::nat)" by simp
  obtain b0 rest where
    c: "chunk ''A:'' ''abcdefghij'' 5 = Inr ((''A:'' @ b0) # rest)" and
    r: "b0 @ concat rest = ''abcdefghij''" and
    l: "\<forall>seg \<in> set ((''A:'' @ b0) # rest). length seg \<le> 5"
    using chunk_round_trip [OF h, of "''abcdefghij''"] by blast
  have e: "chunk ''A:'' ''abcdefghij'' 5 = Inr [''A:abc'', ''defgh'', ''ij'']"
    by (simp add: chunk_def Let_def rest_chunks.simps)
  from c e have b0: "b0 = ''abc''" and rest: "rest = [''defgh'', ''ij'']"
    by simp_all
  from r b0 rest have rt: "''abc'' @ concat [''defgh'', ''ij''] = ''abcdefghij''"
    by simp
  from l b0 rest have len:
    "length ''A:abc'' \<le> 5 \<and> length ''defgh'' \<le> 5 \<and> length ''ij'' \<le> 5"
    by simp
  from h e rt len show ?thesis by blast
qed

text \<open>
  Claim C1 as stated says that only the first message starts with the prefix. The later
  messages are slices of the reply and are not inspected: for the user \<open>u\<close>, the prompt
  \<open>p\<close> and the model \<open>m\<close> (a prefix of 16 characters), a reply of 1984 \<open>y\<close> followed by the
  text of the prefix is sent as two messages, and the second one is the prefix itself.
\<close>

theorem chunk_later_segment_startswith_prefix:
  "length (format_prefix ''u'' ''p'' ''m'') < 2000 \<and>
   chunk (format_prefix ''u'' ''p'' ''m'')
         (replicate 1984 CHR ''y'' @ format_prefix ''u'' ''p'' ''m'') 2000 =
     Inr [format_prefix ''u'' ''p'' ''m'' @ replicate 1984 CHR ''y'',
          format_prefix ''u'' ''p'' ''m''] \<and>
   startswith (format_prefix ''u'' ''p'' ''m'') (format_prefix ''u'' ''p'' ''m'')"
  by (simp add: chunk_def Let_def rest_chunks.simps format_prefix_def startswith_def)

text \<open>
  Claim C5, as amended. A prefix of at least \<open>limit\<close> characters gives the
  "too long to display" reply for every non-empty body; so does askpoe, whose limit is
  2000, for every non-empty reply.
\<close>

theorem chunk_prefix_too_long:
  "(limit \<le> length p \<and> body \<noteq> [] \<longrightarrow> chunk p body limit = Inl PrefixTooLong) \<and>
   (2000 \<le> length (format_prefix display_name prompt model) \<and> response \<noteq> [] \<longrightarrow>
      askpoe_reply display_name prompt model response = Inl PrefixTooLong)"
proof (intro conjI impI)
  assume "limit \<le> length p \<and> body \<noteq> []"
  then have "limit \<le> length p" and "limit < length p + length body"
    by (cases body; simp)+
  then show "chunk p body limit = Inl PrefixTooLong"
    by (simp add: chunk_def Let_def)
next
  assume h: "2000 \<le> length (format_prefix display_name prompt model) \<and> response \<noteq> []"
  then have "2000 \<le> length (format_prefix display_name prompt model)"
    and "2000 < length (format_prefix display_name prompt model) + length response"
    by (cases response; simp)+
  then have "chunk (format_prefix display_name prompt model) response 2000 = Inl PrefixTooLong"
    by (simp add: chunk_def Let_def)
  then show "askpoe_reply display_name prompt model response = Inl PrefixTooLong"
    using h by (simp add: askpoe_reply_def)
qed

text \<open>
  The hypotheses of C5 hold for a prefix of 2000 characters and the body \<open>x\<close>, and in
  askpoe for a prompt of 1985 characters and the reply \<open>x\<close>.
\<close>

theorem chunk_prefix_too_long_witness:
  "(2000::nat) \<le> length (replicate 2000 CHR ''a'') \<and> ''x'' \<noteq> [] \<and>
   chunk (replicate 2000 CHR ''a'') ''x'' 2000 = Inl PrefixTooLong \<and>
   2000 \<le> length (format_prefix ''u'' (replicate 1985 CHR ''a'') ''m'') \<and>
   askpoe_reply ''u'' (replicate 1985 CHR ''a'') ''m'' ''x'' = Inl PrefixTooLong"
proof -
  have h1: "(2000::nat) \<le> length (replicate 2000 CHR ''a'') \<and> ''x'' \<noteq> []" by simp
  have h2: "2000 \<le> length (format_prefix ''u'' (replicate 1985 CHR ''a'') ''m'') \<and> ''x'' \<noteq> []"
    by (simp add: format_prefix_def)
  note t = chunk_prefix_too_long
    [of 2000 "replicate 2000 CHR ''a''" "''x''" "''u''" "replicate 1985 CHR ''a''" "''m''" "''x''"]
  from t h1 have c1: "chunk (replicate 2000 CHR ''a'') ''x'' 2000 = Inl PrefixTooLong"
    by blast
  from t h2 have c2: "askpoe_reply ''u'' (replicate 1985 CHR ''a'') ''m'' ''x'' = Inl PrefixTooLong"
    by blast
  from h1 h2 c1 c2 show ?thesis by blast
qed

text \<open>
  Claim C5 as stated includes the empty body. An empty reply does not reach the length
  tests: with a prefix of 2001 characters (user \<open>u\<close>, model \<open>m\<close>, a prompt of 1986
  characters) and an empty reply, askpoe answers that no response was generated (line
  207), not that the text is too long to display.
\<close>

theorem askpoe_empty_reply_not_too_long:
  "2000 \<le> length (format_prefix ''u'' (replicate 1986 CHR ''a'') ''m'') \<and>
   askpoe_reply ''u'' (replicate 1986 CHR ''a'') ''m'' [] = Inl NoResponse \<and>
   askpoe_reply ''u'' (replicate 1986 CHR ''a'') ''m'' [] \<noteq> Inl PrefixTooLong"
  by (simp add: askpoe_reply_def format_prefix_def)

section \<open>Properties of the store\<close>

subsection \<open>Dictionaries\<close>

lemma map_of_dict_set: "map_of (dict_set d k v) = (map_of d)(k \<mapsto> v)"
  by (induction d k v rule: dict_set.induct) (auto simp: fun_eq_iff)


lemma dict_set_middle:
  "k \<notin> fst ` set pre \<Longrightarrow> dict_set (pre @ (k, v0) # rest) k v = pre @ (k, v) # rest"
  by (induction pre) auto

lemma migrate_loop_other:
  "\<forall>x. data \<noteq> JStr x \<Longrightarrow>
   migrate_loop ((g, data) # items) (c, m) = migrate_loop items (c, m)"
  by (cases data) simp_all

lemma migrated_value_other: "\<forall>x. data \<noteq> JStr x \<Longrightarrow> migrated_value data = data"
  by (cases data) (simp_all add: migrated_value_def)

lemma migrate_loop_map:
  "distinct (map fst (pre @ items)) \<Longrightarrow>
   migrate_loop items (pre @ items, m) =
     (pre @ map (\<lambda>(g, data). (g, migrated_value data)) items,
      m \<or> (\<exists>g x. (g, JStr x) \<in> set items))"
proof (induction items arbitrary: pre m)
  case Nil
  then show ?case by simp
next
  case (Cons item items)
  obtain g data where item: "item = (g, data)" by (cases item)
  have fresh: "g \<notin> fst ` set pre" using Cons.prems item by auto
  show ?case
  proof (cases "\<exists>x. data = JStr x")
    case True
    then obtain x where x: "data = JStr x" by blast
    have d: "distinct (map fst ((pre @ [(g, new_record x)]) @ items))"
      using Cons.prems item by simp
    have "migrate_loop (item # items) (pre @ item # items, m) =
          migrate_loop items ((pre @ [(g, new_record x)]) @ items, True)"
      using item x dict_set_middle[OF fresh] by simp
    also have "\<dots> =
        ((pre @ [(g, new_record x)]) @ map (\<lambda>(g, data). (g, migrated_value data)) items,
         True \<or> (\<exists>g x. (g, JStr x) \<in> set items))"
      by (rule Cons.IH[OF d])
    finally show ?thesis using item x by (auto simp: migrated_value_def)
  next
    case False
    then have other: "\<forall>x. data \<noteq> JStr x" by blast
    have d: "distinct (map fst ((pre @ [item]) @ items))" using Cons.prems by simp
    have "migrate_loop (item # items) (pre @ item # items, m) =
          migrate_loop items ((pre @ [item]) @ items, m)"
      using item migrate_loop_other[OF other] by simp
    also have "\<dots> =
        ((pre @ [item]) @ map (\<lambda>(g, data). (g, migrated_value data)) items,
         m \<or> (\<exists>g x. (g, JStr x) \<in> set items))"
      by (rule Cons.IH[OF d])
    finally show ?thesis using item other migrated_value_other[OF other] by auto
  qed
qed

lemma migrate_llm_choices_map:
  assumes "distinct (keys s)"
  shows "migrate_llm_choices s =
     (migrated_store s, \<exists>g x. (g, JStr x) \<in> set s)"
  using migrate_loop_map[of "[]" s False] assms
  by (simp add: migrate_llm_choices_def keys_def migrated_store_def)

lemma keys_map_migrated: "keys (migrated_store s) = keys s"
  by (induction s) (auto simp: keys_def migrated_store_def)

lemma map_of_map_migrated:
  "map_of (migrated_store s) g = map_option migrated_value (map_of s g)"
  by (induction s) (auto simp: migrated_store_def)

lemma migrated_value_not_str: "migrated_value data \<noteq> JStr x"
  by (cases data) (simp_all add: migrated_value_def new_record_def)

lemma migrated_value_str: "migrated_value (JStr x) = new_record x"
  by (simp add: migrated_value_def)

lemma migrated_value_idem: "migrated_value (migrated_value data) = migrated_value data"
  by (cases data) (simp_all add: migrated_value_def new_record_def)


lemma migrated_twice:
  "migrated_store (migrated_store s) =
   migrated_store s"
  by (induction s) (auto simp: migrated_value_idem migrated_store_def)

lemma no_str_after_migration:
  "(g, JStr x) \<notin> set (migrated_store s)"
  by (induction s) (auto simp: migrated_value_not_str [symmetric] migrated_store_def)

text \<open>
  Claim C2. One run of the migration turns every entry whose value is a bare string \<open>x\<close>
  into the record with model \<open>x\<close> and no chat, and returns whether there was such an entry;
  a second run right after it returns \<open>False\<close> and leaves the dictionary as it is. The
  hypothesis is that of a Python dictionary: each key occurs once.
\<close>

theorem migrate_llm_choices_idempotent:
  assumes "distinct (keys s)"
  shows "(\<forall>g x. map_of s g = Some (JStr x) \<longrightarrow>
            map_of (fst (migrate_llm_choices s)) g = Some (new_record x)) \<and>
         (snd (migrate_llm_choices s) \<longleftrightarrow> (\<exists>g x. (g, JStr x) \<in> set s)) \<and>
         migrate_llm_choices (fst (migrate_llm_choices s)) = (fst (migrate_llm_choices s), False)"
proof -
  let ?s' = "migrated_store s"
  have m: "migrate_llm_choices s = (?s', \<exists>g x. (g, JStr x) \<in> set s)"
    using migrate_llm_choices_map[OF assms] .
  have conv: "\<forall>g x. map_of s g = Some (JStr x) \<longrightarrow> map_of ?s' g = Some (new_record x)"
    by (simp add: map_of_map_migrated migrated_value_str)
  have d': "distinct (keys ?s')" using assms by (simp only: keys_map_migrated)
  have again: "migrate_llm_choices ?s' = (?s', False)"
    using migrate_llm_choices_map[OF d'] by (simp add: migrated_twice no_str_after_migration)
  show ?thesis using m conv again by simp
qed

text \<open>
  The hypothesis of C2 holds for a dictionary with one legacy entry and one record.
\<close>

theorem migrate_llm_choices_idempotent_witness:
  "distinct (keys [(''1'', JStr ''gpt4''), (''2'', new_record ''claude'')]) \<and>
   map_of (fst (migrate_llm_choices [(''1'', JStr ''gpt4''), (''2'', new_record ''claude'')])) ''1''
     = Some (JObj [(''model'', JStr ''gpt4''), (''chatId'', JNull)]) \<and>
   snd (migrate_llm_choices [(''1'', JStr ''gpt4''), (''2'', new_record ''claude'')]) \<and>
   migrate_llm_choices (fst (migrate_llm_choices [(''1'', JStr ''gpt4''), (''2'', new_record ''claude'')]))
     = (fst (migrate_llm_choices [(''1'', JStr ''gpt4''), (''2'', new_record ''claude'')]), False)"
proof -
  have h: "distinct (keys [(''1'', JStr ''gpt4''), (''2'', new_record ''claude'')])"
    by (simp add: keys_def)
  show ?thesis
    using h migrate_llm_choices_idempotent [OF h]
    by (simp add: new_record_def)
qed

text \<open>
  Claim C10. The migration keeps the keys (the same keys in the same order, hence the
  same set of keys), and every entry whose value is not a bare string keeps its value.
\<close>

theorem migrate_llm_choices_frame:
  assumes "distinct (keys s)"
  shows "keys (fst (migrate_llm_choices s)) = keys s \<and>
         set (keys (fst (migrate_llm_choices s))) = set (keys s) \<and>
         (\<forall>g data. map_of s g = Some data \<and> (\<forall>x. data \<noteq> JStr x) \<longrightarrow>
            map_of (fst (migrate_llm_choices s)) g = Some data)"
proof -
  let ?s' = "migrated_store s"
  have m: "fst (migrate_llm_choices s) = ?s'"
    using migrate_llm_choices_map[OF assms] by simp
  have k: "keys ?s' = keys s" by (rule keys_map_migrated)
  have f: "\<forall>g data. map_of s g = Some data \<and> (\<forall>x. data \<noteq> JStr x) \<longrightarrow>
             map_of ?s' g = Some data"
    by (simp add: map_of_map_migrated migrated_value_other)
  show ?thesis using m k f by simp
qed

text \<open>
  The hypotheses of C10 hold for a record with an open chat next to a legacy entry.
\<close>

theorem migrate_llm_choices_frame_witness:
  "distinct (keys [(''1'', JStr ''gpt4''), (''2'', JObj [(''model'', JStr ''claude''), (''chatId'', JStr ''c7'')])]) \<and>
   keys (fst (migrate_llm_choices
      [(''1'', JStr ''gpt4''), (''2'', JObj [(''model'', JStr ''claude''), (''chatId'', JStr ''c7'')])]))
     = [''1'', ''2''] \<and>
   map_of (fst (migrate_llm_choices
      [(''1'', JStr ''gpt4''), (''2'', JObj [(''model'', JStr ''claude''), (''chatId'', JStr ''c7'')])])) ''2''
     = Some (JObj [(''model'', JStr ''claude''), (''chatId'', JStr ''c7'')])"
proof -
  let ?e = "JObj [(''model'', JStr ''claude''), (''chatId'', JStr ''c7'')]"
  let ?s = "[(''1'', JStr ''gpt4''), (''2'', ?e)]"
  have h: "distinct (keys ?s)" by (simp add: keys_def)
  note t = migrate_llm_choices_frame [OF h]
  from t have k: "keys (fst (migrate_llm_choices ?s)) = keys ?s" by blast
  from t have "map_of ?s ''2'' = Some ?e \<and> (\<forall>x. ?e \<noteq> JStr x) \<longrightarrow>
      map_of (fst (migrate_llm_choices ?s)) ''2'' = Some ?e" by blast
  then have f: "map_of (fst (migrate_llm_choices ?s)) ''2'' = Some ?e" by simp
  show ?thesis using h k f by (simp add: keys_def)
qed


text \<open>
  Claim C3. When the entry of the guild is a record with a chat id that is not \<open>None\<close>,
  the update of llm_set succeeds and leaves a record whose model is the new model and
  whose chat id is \<open>None\<close>, whatever the chat id was.
\<close>

theorem llm_set_entry_resets_chat_id:
  assumes "map_of s g = Some (JObj entry)"
      and "map_of entry ''chatId'' = Some c" and "c \<noteq> JNull"
  shows "\<exists>s' entry'. llm_set_entry s g m = Inr s' \<and>
           map_of s' g = Some (JObj entry') \<and>
           map_of entry' ''model'' = Some (JStr m) \<and>
           map_of entry' ''chatId'' = Some JNull"
proof -
  let ?entry' = "dict_set (dict_set entry ''model'' (JStr m)) ''chatId'' JNull"
  let ?s' = "dict_set s g (JObj ?entry')"
  have "llm_set_entry s g m = Inr ?s'"
    using assms(1) by (simp add: llm_set_entry_def)
  moreover have "map_of ?s' g = Some (JObj ?entry')"
    by (simp add: map_of_dict_set)
  moreover have "map_of ?entry' ''model'' = Some (JStr m)"
    by (simp add: map_of_dict_set)
  moreover have "map_of ?entry' ''chatId'' = Some JNull"
    by (simp add: map_of_dict_set)
  ultimately show ?thesis by blast
qed

text \<open>
  The hypotheses of C3 hold for the record of guild \<open>1\<close> with chat id 77.
\<close>

theorem llm_set_entry_resets_chat_id_witness:
  "map_of [(''1'', JObj [(''model'', JStr ''gpt3_5''), (''chatId'', JNum 77)])] ''1''
     = Some (JObj [(''model'', JStr ''gpt3_5''), (''chatId'', JNum 77)]) \<and>
   map_of [(''model'', JStr ''gpt3_5''), (''chatId'', JNum 77)] ''chatId'' = Some (JNum 77) \<and>
   JNum 77 \<noteq> JNull \<and>
   llm_set_entry [(''1'', JObj [(''model'', JStr ''gpt3_5''), (''chatId'', JNum 77)])] ''1'' ''claude''
     = Inr [(''1'', JObj [(''model'', JStr ''claude''), (''chatId'', JNull)])]"
proof -
  let ?entry = "[(''model'', JStr ''gpt3_5''), (''chatId'', JNum 77)]"
  let ?s = "[(''1'', JObj ?entry)]"
  have h1: "map_of ?s ''1'' = Some (JObj ?entry)" by simp
  have h2: "map_of ?entry ''chatId'' = Some (JNum 77)" by simp
  have h3: "JNum 77 \<noteq> JNull" by simp
  obtain s' entry' where
    r: "llm_set_entry ?s ''1'' ''claude'' = Inr s'" and
    e: "map_of s' ''1'' = Some (JObj entry')" and
    m: "map_of entry' ''model'' = Some (JStr ''claude'')" and
    c: "map_of entry' ''chatId'' = Some JNull"
    using llm_set_entry_resets_chat_id [OF h1 h2 h3, of "''claude''"] by blast
  have v: "llm_set_entry ?s ''1'' ''claude'' =
        Inr [(''1'', JObj [(''model'', JStr ''claude''), (''chatId'', JNull)])]"
    by (simp add: llm_set_entry_def)
  from r v have "s' = [(''1'', JObj [(''model'', JStr ''claude''), (''chatId'', JNull)])]"
    by simp
  with e have "entry' = [(''model'', JStr ''claude''), (''chatId'', JNull)]" by simp
  with v m c h1 h2 h3 show ?thesis by simp
qed

subsection \<open>The entry of the guild after start-up\<close>









subsection \<open>Loading\<close>




subsection \<open>Saving after a mutation\<close>

text \<open>
  The handler llm_set saves after its update (line 291), and start-up saves after a
  migration that changed something (lines 68-69): in both cases the file is the
  serialisation of the dictionary at that point.
\<close>

lemma llm_set_persisted:
  "llm_set json_dump models st guild_id model = (st', ModelSet) \<Longrightarrow> persisted json_dump st'"
  by (auto simp: llm_set_def persisted_def save_llm_choices_def split: if_splits sum.splits)

lemma startup_migration_persisted:
  assumes "json_load contents = Inr (JObj d)" and "snd (migrate_llm_choices d)"
      and "guild_key \<in> set (keys (fst (migrate_llm_choices d)))"
      and "startup json_load json_dump guild_key (Some contents) = Inr (st, log)"
  shows "persisted json_dump st"
  using assms
  by (auto simp: startup_def load_llm_choices_def persisted_def save_llm_choices_def
      split: prod.splits)

text \<open>
  Claim C9 says that every mutation, the creation of the default guild's entry at start-up
  included, is followed by a save. On a first start, with no file, lines 72-76 create the
  entry of guild \<open>1\<close> and nothing is saved: there is still no file when start-up ends.
\<close>

theorem startup_default_entry_not_persisted:
  "startup json_load json_dump ''1'' None =
     Inr (\<lparr>llm_choices = [(''1'', JObj [(''model'', JStr ''gpt3_5''), (''chatId'', JNull)])],
           durable_file = None\<rparr>, []) \<and>
   \<not> persisted json_dump
       \<lparr>llm_choices = [(''1'', JObj [(''model'', JStr ''gpt3_5''), (''chatId'', JNull)])],
        durable_file = None\<rparr>"
  by (simp add: startup_def load_llm_choices_def migrate_llm_choices_def keys_def
      new_record_def persisted_def)

end
